theory Spec2Isabelle
  imports Main
begin

section \<open>The signalling client: data model\<close>

text \<open>
  The development follows the class \<open>ChakraClient\<close>: its private fields are a record,
  every method and every event listener is a function on the state of the client and of
  the runtime around it, and what a run does to the outside (notifications, handler
  calls, sockets, timers) is appended to a trace.

  JavaScript numbers are modelled as integers: the status of a message, the reconnect
  counter, the interval and its multiplier are whole numbers in every use the client
  makes of them.
\<close>

record SessionDescription =
  type :: string
  sdp :: string
  candidate :: "string option"

record OutgoingMessage =
  action :: string
  stream :: string
  data :: SessionDescription
  token :: "string option"

record Message =
  action :: string
  status :: int
  stream :: string
  data :: SessionDescription

text \<open>\<open>ClientError\<close> is an \<open>Error\<close> (a message text) with the optional field \<open>msg\<close>.\<close>

record ClientError =
  message :: string
  msg :: "Message option"

text \<open>
  The two functions a pending call holds are closures made by one call of
  \<open>watchStream\<close>: \<open>onStream\<close>, which hands the payload to the peer, and the
  \<open>reject\<close> of the promise that call returns. They are named by the number of the call.
\<close>

datatype fn = OnStream nat | Reject nat

record Callback =
  stream :: string
  resolve :: fn
  reject :: fn

text \<open>What the client throws or lets escape.\<close>

datatype error_value = Of_client ClientError | Of_socket string

datatype exn =
    ReferenceError
  | SyntaxError
  | TypeError
  | Unhandled error_value

text \<open>The notifications of the \<open>EventEmitter\<close> the client extends.\<close>

datatype notification =
    Connect_ev
  | Close_ev int
  | Error_ev error_value
  | Stream_data_ev Message

datatype arg = Payload SessionDescription | Failure ClientError | Raised exn

datatype effect =
    Emitted notification
  | Invoked fn arg
  | Registered Callback
  | Socket_created nat string "string option"
  | Timeout_set int
  | Connect_fulfilled nat
  | Connect_rejected exn
  | Uncaught exn
  | Sent nat OutgoingMessage
  | Http_post string "string option" string "string list option"

section \<open>The registry of pending calls\<close>

text \<open>
  \<open>Array.prototype.splice(i, 1)\<close> on the list of callbacks.
\<close>

definition splice1 :: "'a list \<Rightarrow> nat \<Rightarrow> 'a list" where
  "splice1 xs i = take i xs @ drop (i + 1) xs"

text \<open>
  \<open>filterCallbacks\<close>: the loop runs on the index \<open>i\<close> over the array it is shortening.
  The handler is called on the entry at \<open>i\<close>; what the handler does to the outside is the
  list of effects it returns beside its verdict. When the verdict is \<open>false\<close> the entry
  is spliced out and \<open>i\<close> is decremented, and the loop's \<open>i++\<close> follows in both cases.
  The index is never negative at the head of the loop (it starts at 0); the model stops
  there, where JavaScript would read \<open>undefined\<close>.
\<close>

function filterCallbacks_loop ::
  "(Callback \<Rightarrow> effect list \<times> bool) \<Rightarrow> int \<Rightarrow> Callback list \<Rightarrow> effect list
     \<Rightarrow> Callback list \<times> effect list" where
  "filterCallbacks_loop handler i callbacks tr =
     (if 0 \<le> i \<and> i < int (length callbacks) then
        (let callback = callbacks ! nat i;
             (out, keep) = handler callback
         in if \<not> keep
            then filterCallbacks_loop handler ((i - 1) + 1) (splice1 callbacks (nat i)) (tr @ out)
            else filterCallbacks_loop handler (i + 1) callbacks (tr @ out))
      else (callbacks, tr))"
  by pat_completeness auto
termination
  by (relation "measure (\<lambda>(handler, i, callbacks, tr). nat (int (length callbacks) - i))")
     (auto simp: splice1_def)

definition filterCallbacks ::
  "(Callback \<Rightarrow> effect list \<times> bool) \<Rightarrow> Callback list \<Rightarrow> effect list
     \<Rightarrow> Callback list \<times> effect list" where
  "filterCallbacks handler callbacks tr = filterCallbacks_loop handler 0 callbacks tr"

definition resolveCallbacks ::
  "string \<Rightarrow> SessionDescription \<Rightarrow> Callback list \<Rightarrow> effect list
     \<Rightarrow> Callback list \<times> effect list" where
  "resolveCallbacks s d =
     filterCallbacks (\<lambda>callback.
       if Callback.stream callback = s
       then ([Invoked (resolve callback) (Payload d)], False)
       else ([], True))"

definition rejectCallbacks ::
  "string \<Rightarrow> ClientError \<Rightarrow> Callback list \<Rightarrow> effect list
     \<Rightarrow> Callback list \<times> effect list" where
  "rejectCallbacks s e =
     filterCallbacks (\<lambda>callback.
       if Callback.stream callback = s
       then ([Invoked (reject callback) (Failure e)], False)
       else ([], True))"

section \<open>Configuration\<close>

text \<open>
  \<open>Options\<close> is what the caller passes (every property may be absent); the constructor
  spreads it over \<open>DEFAULT_OPTS\<close>, so the six properties with a default are always
  present in \<open>this.opts\<close>, and \<open>port\<close> and \<open>path\<close> stay optional. The \<open>url\<close>
  option, which the constructor hands to the platform's URL parser to overwrite host,
  port, secure and path, and the \<open>wrtc\<close> option, which is only passed on to the peer,
  are not modelled; neither is a property passed explicitly as \<open>undefined\<close>.
\<close>

record Options =
  host :: "string option"
  port :: "int option"
  path :: "string option"
  secure :: "bool option"
  token :: "string option"
  autoReconnect :: "bool option"
  reconnectInterval :: "int option"
  reconnectIntervalMultiplier :: "int option"

record opts =
  host :: string
  port :: "int option"
  path :: "string option"
  secure :: bool
  token :: string
  autoReconnect :: bool
  reconnectInterval :: int
  reconnectIntervalMultiplier :: int

definition DEFAULT_OPTS :: opts where
  "DEFAULT_OPTS =
     \<lparr>host = ''127.0.0.1'', port = None, path = None, secure = False, token = [],
      autoReconnect = True, reconnectInterval = 2000, reconnectIntervalMultiplier = 1\<rparr>"

definition spread :: "'a \<Rightarrow> 'a option \<Rightarrow> 'a" where
  "spread d v = (case v of None \<Rightarrow> d | Some x \<Rightarrow> x)"

definition merge_opts :: "opts \<Rightarrow> Options \<Rightarrow> opts" where
  "merge_opts d opt =
     \<lparr>host = spread (opts.host d) (Options.host opt),
      port = (case Options.port opt of None \<Rightarrow> opts.port d | Some p \<Rightarrow> Some p),
      path = (case Options.path opt of None \<Rightarrow> opts.path d | Some p \<Rightarrow> Some p),
      secure = spread (opts.secure d) (Options.secure opt),
      token = spread (opts.token d) (Options.token opt),
      autoReconnect = spread (opts.autoReconnect d) (Options.autoReconnect opt),
      reconnectInterval = spread (opts.reconnectInterval d) (Options.reconnectInterval opt),
      reconnectIntervalMultiplier =
        spread (opts.reconnectIntervalMultiplier d) (Options.reconnectIntervalMultiplier opt)\<rparr>"

text \<open>
  The decimal text of a number, as \<open>toString\<close> and a template string give it for a
  whole number.
\<close>

definition digit :: "nat \<Rightarrow> char" where
  "digit d = ''0123456789'' ! d"

fun decimal :: "nat \<Rightarrow> string" where
  "decimal n = (if 10 \<le> n then decimal (n div 10) @ [digit (n mod 10)] else [digit n])"

declare decimal.simps [simp del]

definition toString :: "int \<Rightarrow> string" where
  "toString i = (if 0 \<le> i then decimal (nat i) else ''-'' @ decimal (nat (- i)))"

definition hostname :: "opts \<Rightarrow> string" where
  "hostname o' =
     opts.host o' @ '':'' @ (case opts.port o' of None \<Rightarrow> ''undefined'' | Some p \<Rightarrow> toString p)"

definition wsUrl :: "opts \<Rightarrow> string" where
  "wsUrl o' =
     (if opts.secure o' then ''wss'' else ''ws'') @ ''://'' @ hostname o' @
     (case opts.path o' of None \<Rightarrow> ''/'' | Some p \<Rightarrow> if p = [] then ''/'' else p)"

definition apiUrl :: "opts \<Rightarrow> string" where
  "apiUrl o' = (if opts.secure o' then ''https'' else ''http'') @ ''://'' @ hostname o'"

definition ACTION_CONNECT :: string where
  "ACTION_CONNECT = ''Connect''"

section \<open>The client and the runtime around it\<close>

record ChakraClient =
  opts :: opts
  socket :: "nat option"
  reconnectTries :: int
  destroyed :: bool
  connected :: bool
  callbacks :: "Callback list"

definition new_ChakraClient :: "Options \<Rightarrow> ChakraClient" where
  "new_ChakraClient opt =
     \<lparr>opts = merge_opts DEFAULT_OPTS opt, socket = None, reconnectTries = 0,
      destroyed = False, connected = False, callbacks = []\<rparr>"

text \<open>
  What the global identifier \<open>window\<close> evaluates to where the client runs: an object
  (a browser), a falsy value, or nothing at all, in which case reading it throws a
  \<open>ReferenceError\<close>.
\<close>

datatype window_binding = Window_object | Window_falsy | Window_undeclared

text \<open>
  Who waits for the promise of one \<open>connect()\<close>: the rest of a \<open>watchStream\<close> call
  (its stream name, the outcome of its peer and video set-up, its number), or nobody the
  client knows of (a direct call, or the reconnect timer, which drops the promise).
\<close>

datatype awaiter = Nobody | WatchStream_rest string "exn option" nat

text \<open>
  A socket made by \<open>connect()\<close>. It always carries the three listeners of
  \<open>registerEvents\<close>; \<open>open_listener\<close> tells whether the handler of \<open>onceOpen\<close> is
  still attached, and \<open>once_open\<close> is the promise of \<open>onceOpen\<close>: \<open>Some a\<close> while
  it is pending with \<open>a\<close> waiting behind it, \<open>None\<close> once it is settled. \<open>closed\<close>
  records that the socket's close event was delivered.
\<close>

record sock =
  open_listener :: bool
  once_open :: "awaiter option"
  closed :: bool

text \<open>
  The runtime: the platform (\<open>window\<close>, and which URLs the \<open>WebSocket\<close> constructor
  takes without throwing), the client, the sockets it made (a socket is named by its
  position), the pending timeouts (their delays), the number of listeners for the
  \<open>error\<close> notification, the number of \<open>watchStream\<close> calls so far, and the trace.
\<close>

record world =
  window :: window_binding
  ws_accepts :: "string \<Rightarrow> bool"
  client :: ChakraClient
  sockets :: "sock list"
  timers :: "int list"
  error_listeners :: nat
  calls :: nat
  trace :: "effect list"

definition boot :: "window_binding \<Rightarrow> (string \<Rightarrow> bool) \<Rightarrow> Options \<Rightarrow> world" where
  "boot win acc opt =
     \<lparr>window = win, ws_accepts = acc, client = new_ChakraClient opt, sockets = [],
      timers = [], error_listeners = 0, calls = 0, trace = []\<rparr>"

definition say :: "effect list \<Rightarrow> world \<Rightarrow> world" where
  "say es w = w\<lparr>trace := trace w @ es\<rparr>"

text \<open>
  \<open>EventEmitter.emit\<close>: the listeners are called, which the trace records as one
  \<open>Emitted\<close>. Listeners are assumed to return without calling back into the client.
  An \<open>error\<close> notification that has no listener is thrown by \<open>emit\<close> itself.
\<close>

definition emit :: "notification \<Rightarrow> world \<Rightarrow> exn + world" where
  "emit n w =
     (case n of
        Error_ev e \<Rightarrow> if error_listeners w = 0 then Inl (Unhandled e) else Inr (say [Emitted n] w)
      | _ \<Rightarrow> Inr (say [Emitted n] w))"

text \<open>
  A statement \<open>this.emit(...)\<close> followed by the rest of a listener: when \<open>emit\<close> throws,
  the rest is not run and the exception leaves the listener.
\<close>

definition emit_then :: "notification \<Rightarrow> (world \<Rightarrow> world) \<Rightarrow> world \<Rightarrow> world" where
  "emit_then n rest w =
     (case emit n w of Inl x \<Rightarrow> say [Uncaught x] w | Inr w' \<Rightarrow> rest w')"

text \<open>The registry operations, run on the client's own list and the trace.\<close>

definition on_registry ::
  "(Callback list \<Rightarrow> effect list \<Rightarrow> Callback list \<times> effect list) \<Rightarrow> world \<Rightarrow> world" where
  "on_registry f w =
     (case f (callbacks (client w)) (trace w) of
        (cbs, tr) \<Rightarrow> w\<lparr>client := (client w)\<lparr>callbacks := cbs\<rparr>, trace := tr\<rparr>)"

section \<open>The session facade: \<open>watchStream\<close> after the connection is there\<close>

definition superseded :: ClientError where
  "superseded =
     \<lparr>message = ''Request was cancelled because a new one was made'', msg = None\<rparr>"

text \<open>
  The body of \<open>watchStream\<close> from \<open>rejectCallbacks\<close> on. Between the rejection and the
  \<open>push\<close> the peer and the video element are set up by calls into the peer library and
  the DOM; \<open>setup = Some x\<close> says that one of them throws \<open>x\<close>, which ends the executor
  there. After the \<open>push\<close> the method only attaches two listeners to the peer; they run
  later, call \<open>send\<close> or settle the promise, and write no field of the client.
\<close>

definition watchStream_rest :: "string \<Rightarrow> exn option \<Rightarrow> nat \<Rightarrow> world \<Rightarrow> world" where
  "watchStream_rest name setup n w =
     (let w1 = on_registry (rejectCallbacks name superseded) w
      in case setup of
           Some x \<Rightarrow> say [Uncaught x] w1
         | None \<Rightarrow>
             (let cb = \<lparr>Callback.stream = name, resolve = OnStream n, reject = Reject n\<rparr>
              in say [Registered cb]
                   (w1\<lparr>client := (client w1)\<lparr>callbacks := callbacks (client w1) @ [cb]\<rparr>\<rparr>)))"

section \<open>The connection lifecycle\<close>

text \<open>
  \<open>connect()\<close> up to its \<open>await\<close>. Reading an undeclared \<open>window\<close> or a URL the
  \<open>WebSocket\<close> constructor refuses throws, which rejects the promise of \<open>connect()\<close>;
  a waiting \<open>watchStream\<close> catches that and calls its \<open>reject\<close>. Otherwise the new
  socket becomes \<open>this.socket\<close>, gets the handler of \<open>onceOpen\<close> and the listeners of
  \<open>registerEvents\<close>, and the call is suspended.
\<close>

definition connect_failed :: "exn \<Rightarrow> awaiter \<Rightarrow> world \<Rightarrow> world" where
  "connect_failed x a w =
     (case a of
        Nobody \<Rightarrow> say [Connect_rejected x] w
      | WatchStream_rest name setup n \<Rightarrow> say [Connect_rejected x, Invoked (Reject n) (Raised x)] w)"

definition connect :: "awaiter \<Rightarrow> world \<Rightarrow> world" where
  "connect a w =
     (if window w = Window_undeclared then connect_failed ReferenceError a w
      else
        (let headers = (if window w = Window_object then None
                        else Some (''Bearer '' @ opts.token (opts (client w))));
             url = wsUrl (opts (client w))
         in if \<not> ws_accepts w url then connect_failed SyntaxError a w
            else
              (let k = length (sockets w)
               in say [Socket_created k url headers]
                    (w\<lparr>client := (client w)\<lparr>socket := Some k\<rparr>,
                       sockets := sockets w @
                         [\<lparr>open_listener = True, once_open = Some a, closed = False\<rparr>]\<rparr>))))"

text \<open>
  The open event of socket \<open>k\<close>. The handler of \<open>onceOpen\<close> resolves its promise and
  removes itself from whatever \<open>this.socket\<close> is by then. If the promise was pending,
  \<open>connect()\<close> resumes: it resets the counter, sets \<open>connected\<close>, emits \<open>connect\<close> and
  returns, which fulfils its own promise and resumes a waiting \<open>watchStream\<close>.
\<close>

definition on_open :: "nat \<Rightarrow> world \<Rightarrow> world" where
  "on_open k w =
     (let s = sockets w ! k
      in if \<not> open_listener s then w
         else
           (let w1 = (if socket (client w) = Some k
                      then w\<lparr>sockets := (sockets w)[k := s\<lparr>open_listener := False\<rparr>]\<rparr>
                      else w)
            in case once_open s of
                 None \<Rightarrow> w1
               | Some a \<Rightarrow>
                   (let w2 = w1\<lparr>sockets := (sockets w1)[k := (sockets w1 ! k)\<lparr>once_open := None\<rparr>]\<rparr>;
                        w3 = w2\<lparr>client := (client w2)\<lparr>reconnectTries := 0, connected := True\<rparr>\<rparr>
                    in emit_then Connect_ev
                         (\<lambda>w4. let w5 = say [Connect_fulfilled k] w4
                                in case a of
                                     Nobody \<Rightarrow> w5
                                   | WatchStream_rest name setup n \<Rightarrow> watchStream_rest name setup n w5)
                         w3)))"

text \<open>
  The message listener. A frame is what arrives on the socket; \<open>JSON.parse\<close> either
  throws on it or gives the message.
\<close>

datatype frame = Undecodable | Decoded Message

definition on_message :: "frame \<Rightarrow> world \<Rightarrow> world" where
  "on_message f w =
     (case f of
        Undecodable \<Rightarrow> say [Uncaught SyntaxError] w
      | Decoded m \<Rightarrow>
          if status m = 200 then
            (let w1 = (if Message.action m = ACTION_CONNECT
                       then emit_then (Stream_data_ev m) (\<lambda>w'. w') w
                       else w)
             in on_registry (resolveCallbacks (Message.stream m) (Message.data m)) w1)
          else
            (let error = \<lparr>message = toString (status m), msg = Some m\<rparr>
             in emit_then (Error_ev (Of_client error))
                  (on_registry (rejectCallbacks (Message.stream m) error)) w))"

definition on_error :: "string \<Rightarrow> world \<Rightarrow> world" where
  "on_error err w = emit_then (Error_ev (Of_socket err)) (\<lambda>w'. w') w"

text \<open>
  The close listener. The delay handed to \<open>setTimeout\<close> is computed from the counter
  after its increment.
\<close>

definition on_close :: "int \<Rightarrow> world \<Rightarrow> world" where
  "on_close code w =
     (let w1 = w\<lparr>client := (client w)\<lparr>connected := False\<rparr>\<rparr>
      in emit_then (Close_ev code)
           (\<lambda>w2. if opts.autoReconnect (opts (client w2)) \<and> \<not> destroyed (client w2) then
                    (let tries = reconnectTries (client w2) + 1;
                         delay = tries * opts.reconnectInterval (opts (client w2)) *
                                   opts.reconnectIntervalMultiplier (opts (client w2))
                     in say [Timeout_set delay]
                          (w2\<lparr>client := (client w2)\<lparr>reconnectTries := tries\<rparr>,
                              timers := timers w2 @ [delay]\<rparr>))
                  else w2)
           w1)"

text \<open>The callback of the timeout.\<close>

definition on_timeout :: "world \<Rightarrow> world" where
  "on_timeout w = (if \<not> destroyed (client w) then connect Nobody w else w)"

section \<open>The public methods\<close>

definition watchStream :: "string \<Rightarrow> exn option \<Rightarrow> world \<Rightarrow> world" where
  "watchStream name setup w =
     (let n = calls w; w0 = w\<lparr>calls := n + 1\<rparr>
      in if \<not> connected (client w0) then connect (WatchStream_rest name setup n) w0
         else watchStream_rest name setup n w0)"

text \<open>
  \<open>send\<close> hands the encoded message to \<open>this.socket\<close>; without a socket the property
  access throws. What the transport does with a message it is given is its own matter.
\<close>

definition send :: "OutgoingMessage \<Rightarrow> world \<Rightarrow> world" where
  "send m w =
     (case socket (client w) of
        None \<Rightarrow> say [Uncaught TypeError] w
      | Some k \<Rightarrow> say [Sent k m] w)"

text \<open>\<open>createStream\<close> up to its request; the answer goes to the caller alone.\<close>

definition createStream :: "string \<Rightarrow> string list option \<Rightarrow> world \<Rightarrow> world" where
  "createStream name allowedHosts w =
     (let authHeader = (if opts.token (opts (client w)) \<noteq> []
                        then Some (''Bearer '' @ opts.token (opts (client w))) else None)
      in say [Http_post (apiUrl (opts (client w)) @ ''/streams'') authHeader name allowedHosts] w)"

section \<open>Runs\<close>

text \<open>
  What can happen to a client: a call of one of its methods (\<open>on\<close> and \<open>off\<close> are the
  inherited ones, for the \<open>error\<close> notification), an event of one of its sockets, or a
  timeout falling due. An event for a socket that does not exist, or for a timeout that
  is not pending, is nothing. A step runs one of them together with the continuations it
  releases.
\<close>

datatype event =
    Call_connect
  | Call_watchStream string "exn option"
  | Call_send OutgoingMessage
  | Call_createStream string "string list option"
  | Call_on_error
  | Call_off_error
  | Socket_open nat
  | Socket_message nat frame
  | Socket_error nat string
  | Socket_close nat int
  | Timer_fire nat

fun step :: "world \<Rightarrow> event \<Rightarrow> world" where
  "step w Call_connect = connect Nobody w"
| "step w (Call_watchStream name setup) = watchStream name setup w"
| "step w (Call_send m) = send m w"
| "step w (Call_createStream name allowedHosts) = createStream name allowedHosts w"
| "step w Call_on_error = w\<lparr>error_listeners := error_listeners w + 1\<rparr>"
| "step w Call_off_error = w\<lparr>error_listeners := error_listeners w - 1\<rparr>"
| "step w (Socket_open k) = (if k < length (sockets w) then on_open k w else w)"
| "step w (Socket_message k f) = (if k < length (sockets w) then on_message f w else w)"
| "step w (Socket_error k err) = (if k < length (sockets w) then on_error err w else w)"
| "step w (Socket_close k code) =
     (if k < length (sockets w)
      then on_close code (w\<lparr>sockets := (sockets w)[k := (sockets w ! k)\<lparr>closed := True\<rparr>]\<rparr>)
      else w)"
| "step w (Timer_fire i) =
     (if i < length (timers w) then on_timeout (w\<lparr>timers := splice1 (timers w) i\<rparr>) else w)"

definition run :: "world \<Rightarrow> event list \<Rightarrow> world" where
  "run = foldl step"

section \<open>Example runs\<close>

text \<open>
  A client in a browser, made with the port 8080 and nothing else, so that the defaults
  apply (reconnect after 2000, multiplier 1); the platform's \<open>WebSocket\<close> takes the
  URL that results. \<open>s1_pending\<close> is that client connected, with one call pending for
  the stream \<open>s1\<close>; \<open>s1_listened\<close> is the same with a listener for \<open>error\<close>.
\<close>

definition no_options :: Options where
  "no_options =
     \<lparr>Options.host = None, port = None, path = None, secure = None, token = None,
      autoReconnect = None, reconnectInterval = None, reconnectIntervalMultiplier = None\<rparr>"

definition in_browser :: world where
  "in_browser =
     boot Window_object (\<lambda>url. url = ''ws://127.0.0.1:8080/'')
       (no_options\<lparr>Options.port := Some 8080\<rparr>)"

definition answer :: SessionDescription where
  "answer = \<lparr>type = ''answer'', sdp = ''v=0'', candidate = None\<rparr>"

definition reply :: "string \<Rightarrow> int \<Rightarrow> string \<Rightarrow> Message" where
  "reply a st s = \<lparr>Message.action = a, status = st, stream = s, data = answer\<rparr>"

definition call :: "string \<Rightarrow> nat \<Rightarrow> Callback" where
  "call s n = \<lparr>Callback.stream = s, resolve = OnStream n, reject = Reject n\<rparr>"

definition s1_pending :: world where
  "s1_pending = run in_browser [Call_connect, Socket_open 0, Call_watchStream ''s1'' None]"

definition s1_listened :: world where
  "s1_listened =
     run in_browser [Call_on_error, Call_connect, Socket_open 0, Call_watchStream ''s1'' None]"

section \<open>Reading a run\<close>

text \<open>
  The delays handed to \<open>setTimeout\<close> in a trace, in order; the events that are the
  open event of a socket; whether an event is a close event that reaches a socket of the
  client; and how many such close events a run delivers.
\<close>

definition timeouts :: "effect list \<Rightarrow> int list" where
  "timeouts tr = concat (map (\<lambda>e. case e of Timeout_set d \<Rightarrow> [d] | _ \<Rightarrow> []) tr)"

fun is_open :: "event \<Rightarrow> bool" where
  "is_open (Socket_open k) = True"
| "is_open _ = False"

fun closing :: "world \<Rightarrow> event \<Rightarrow> bool" where
  "closing w (Socket_close k code) = (k < length (sockets w))"
| "closing w _ = False"

fun closings :: "world \<Rightarrow> event list \<Rightarrow> nat" where
  "closings w [] = 0"
| "closings w (e # es) = (if closing w e then 1 else 0) + closings (step w e) es"


text \<open>
  \<open>dialling\<close> is the example client after \<open>connect()\<close>, before its socket opens;
  \<open>three_closes\<close> closes that socket and the two the reconnect timer makes next;
  \<open>redialling\<close> is the client after all that, with the fourth socket still to open.
\<close>

definition dialling :: world where
  "dialling = run in_browser [Call_connect]"

definition three_closes :: "event list" where
  "three_closes = [Socket_close 0 1006, Timer_fire 0, Socket_close 1 1006, Timer_fire 0, Socket_close 2 1006]"

definition redialling :: world where
  "redialling = run in_browser ([Call_connect, Socket_open 0] @ three_closes @ [Timer_fire 0])"

text \<open>
  The sockets of the client whose close event has not been delivered, and \<open>idle\<close>: the
  example client connected, with a listener for \<open>error\<close> and no call pending.
\<close>

definition live :: "world \<Rightarrow> nat" where
  "live w = length (filter (\<lambda>s. \<not> closed s) (sockets w))"

definition idle :: world where
  "idle = run in_browser [Call_on_error, Call_connect, Socket_open 0]"

text \<open>
  \<open>platform_ok\<close>: the platform lets \<open>connect()\<close> construct its socket. \<open>conn_inv\<close> is
  what holds of the promises of \<open>connect()\<close> in every run: the call that made socket
  \<open>k\<close> has been fulfilled once if the promise of \<open>onceOpen\<close> on that socket is settled
  and not at all if it is pending, in which case its handler is still attached; no
  fulfilment is recorded for a socket that does not exist; sockets exist only where the
  platform lets them be constructed, and there no \<open>connect()\<close> is ever rejected.
\<close>

definition platform_ok :: "world \<Rightarrow> bool" where
  "platform_ok w = (window w \<noteq> Window_undeclared \<and> ws_accepts w (wsUrl (opts (client w))))"

definition conn_inv :: "world \<Rightarrow> bool" where
  "conn_inv w =
     ((\<forall>k < length (sockets w).
         count_list (trace w) (Connect_fulfilled k) =
           (if once_open (sockets w ! k) = None then 1 else 0)
         \<and> (once_open (sockets w ! k) \<noteq> None \<longrightarrow> open_listener (sockets w ! k)))
      \<and> (\<forall>k \<ge> length (sockets w). count_list (trace w) (Connect_fulfilled k) = 0)
      \<and> (sockets w \<noteq> [] \<longrightarrow> platform_ok w)
      \<and> (platform_ok w \<longrightarrow> (\<forall>x. Connect_rejected x \<notin> set (trace w))))"

text \<open>
  Counting what happens to the call numbered \<open>n\<close>: the calls of its two functions in
  a trace (\<open>fired\<close>), its registrations (\<open>registered\<close>), the calls of its \<open>reject\<close>
  from the \<open>catch\<close> around \<open>connect()\<close> (\<open>caught\<close>), its entries in the registry
  (\<open>pending\<close>), and the sockets behind whose \<open>connect()\<close> it waits (\<open>awaited\<close>).
  \<open>wf_registry\<close>: every entry of the registry holds the two functions of one call.
  \<open>call_inv\<close> is what holds of call \<open>n\<close> in every run: each registration or caught
  failure is matched by one entry still pending or by one call of a function of \<open>n\<close>;
  the call is awaited, registered or caught at most once in all; and nothing has happened
  to a call that has not been made. \<open>answered\<close> and \<open>reconnected\<close> are two runs of the
  example client with a call for \<open>s1\<close>: one receives the answer, the other loses its
  socket and reconnects.
\<close>

fun fires :: "nat \<Rightarrow> effect \<Rightarrow> bool" where
  "fires n (Invoked f a) = (f = OnStream n \<or> f = Reject n)"
| "fires n _ = False"

fun registers :: "nat \<Rightarrow> effect \<Rightarrow> bool" where
  "registers n (Registered c) = (resolve c = OnStream n)"
| "registers n _ = False"

fun catches :: "nat \<Rightarrow> effect \<Rightarrow> bool" where
  "catches n (Invoked f (Raised x)) = (f = Reject n)"
| "catches n _ = False"

fun awaits :: "nat \<Rightarrow> sock \<Rightarrow> bool" where
  "awaits n s =
     (case once_open s of Some (WatchStream_rest name setup m) \<Rightarrow> m = n | _ \<Rightarrow> False)"

definition fired :: "nat \<Rightarrow> effect list \<Rightarrow> nat" where
  "fired n tr = length (filter (fires n) tr)"

definition registered :: "nat \<Rightarrow> effect list \<Rightarrow> nat" where
  "registered n tr = length (filter (registers n) tr)"

definition caught :: "nat \<Rightarrow> effect list \<Rightarrow> nat" where
  "caught n tr = length (filter (catches n) tr)"

definition pending :: "nat \<Rightarrow> Callback list \<Rightarrow> nat" where
  "pending n cbs = length (filter (\<lambda>c. resolve c = OnStream n) cbs)"

definition awaited :: "nat \<Rightarrow> world \<Rightarrow> nat" where
  "awaited n w = length (filter (awaits n) (sockets w))"








section \<open>Properties of the registry\<close>

lemma filterCallbacks_loop_drop:
  "0 \<le> i \<Longrightarrow> i \<le> int (length cbs) \<Longrightarrow>
   filterCallbacks_loop h i cbs tr =
     (take (nat i) cbs @ filter (\<lambda>c. snd (h c)) (drop (nat i) cbs),
      tr @ concat (map (\<lambda>c. fst (h c)) (drop (nat i) cbs)))"
proof (induction h i cbs tr rule: filterCallbacks_loop.induct)
  case (1 h i cbs tr)
  show ?case
  proof (cases "i < int (length cbs)")
    case False
    with "1.prems" have "nat i = length cbs" by simp
    with False "1.prems" show ?thesis by simp
  next
    case True
    define n where "n = nat i"
    have n: "n < length cbs" "i = int n" using True "1.prems" by (simp_all add: n_def)
    obtain out keep where hk: "h (cbs ! n) = (out, keep)" by (cases "h (cbs ! n)")
    have dr: "drop n cbs = cbs ! n # drop (Suc n) cbs"
      using n(1) by (simp add: Cons_nth_drop_Suc)
    show ?thesis
    proof (cases keep)
      case True
      have "filterCallbacks_loop h i cbs tr = filterCallbacks_loop h (i + 1) cbs (tr @ out)"
        using n hk True by (subst filterCallbacks_loop.simps) simp
      also have "\<dots> = (take (nat (i + 1)) cbs @ filter (\<lambda>c. snd (h c)) (drop (nat (i + 1)) cbs),
          (tr @ out) @ concat (map (\<lambda>c. fst (h c)) (drop (nat (i + 1)) cbs)))"
        using "1.IH"(2)[of "cbs ! nat i" "h (cbs ! nat i)" out keep] n hk True by simp
      also have "nat (i + 1) = Suc n" using n by simp
      finally show ?thesis
        using n hk True dr by (simp add: take_Suc_conv_app_nth)
    next
      case False
      have len: "length (splice1 cbs n) = length cbs - 1"
        using n(1) by (simp add: splice1_def)
      have tk: "take n (splice1 cbs n) = take n cbs"
        using n(1) by (simp add: splice1_def)
      have dp: "drop n (splice1 cbs n) = drop (Suc n) cbs"
        using n(1) by (simp add: splice1_def)
      have "filterCallbacks_loop h i cbs tr =
            filterCallbacks_loop h ((i - 1) + 1) (splice1 cbs n) (tr @ out)"
        using n hk False by (subst filterCallbacks_loop.simps) simp
      also have "\<dots> = (take (nat ((i - 1) + 1)) (splice1 cbs n) @
            filter (\<lambda>c. snd (h c)) (drop (nat ((i - 1) + 1)) (splice1 cbs n)),
          (tr @ out) @ concat (map (\<lambda>c. fst (h c)) (drop (nat ((i - 1) + 1)) (splice1 cbs n))))"
        using "1.IH"(1)[of "cbs ! nat i" "h (cbs ! nat i)" out keep] n hk False len by simp
      finally show ?thesis
        using n hk False dr tk dp by simp
    qed
  qed
qed

lemma filterCallbacks_eq:
  "filterCallbacks h cbs tr =
     (filter (\<lambda>c. snd (h c)) cbs, tr @ concat (map (\<lambda>c. fst (h c)) cbs))"
  unfolding filterCallbacks_def using filterCallbacks_loop_drop[of 0 cbs h tr] by simp

lemma resolveCallbacks_eq:
  "resolveCallbacks s d cbs tr =
     (filter (\<lambda>c. Callback.stream c \<noteq> s) cbs,
      tr @ map (\<lambda>c. Invoked (resolve c) (Payload d)) (filter (\<lambda>c. Callback.stream c = s) cbs))"
proof -
  let ?h = "\<lambda>c. if Callback.stream c = s
                then ([Invoked (resolve c) (Payload d)], False) else ([], True)"
  have keep: "filter (\<lambda>c. snd (?h c)) cbs = filter (\<lambda>c. Callback.stream c \<noteq> s) cbs"
    by (rule filter_cong) auto
  have out: "concat (map (\<lambda>c. fst (?h c)) cbs) =
             map (\<lambda>c. Invoked (resolve c) (Payload d)) (filter (\<lambda>c. Callback.stream c = s) cbs)"
    by (induction cbs) auto
  show ?thesis
    unfolding resolveCallbacks_def filterCallbacks_eq keep out ..
qed

lemma rejectCallbacks_eq:
  "rejectCallbacks s e cbs tr =
     (filter (\<lambda>c. Callback.stream c \<noteq> s) cbs,
      tr @ map (\<lambda>c. Invoked (reject c) (Failure e)) (filter (\<lambda>c. Callback.stream c = s) cbs))"
proof -
  let ?h = "\<lambda>c. if Callback.stream c = s
                then ([Invoked (reject c) (Failure e)], False) else ([], True)"
  have keep: "filter (\<lambda>c. snd (?h c)) cbs = filter (\<lambda>c. Callback.stream c \<noteq> s) cbs"
    by (rule filter_cong) auto
  have out: "concat (map (\<lambda>c. fst (?h c)) cbs) =
             map (\<lambda>c. Invoked (reject c) (Failure e)) (filter (\<lambda>c. Callback.stream c = s) cbs)"
    by (induction cbs) auto
  show ?thesis
    unfolding rejectCallbacks_def filterCallbacks_eq keep out ..
qed

lemma filter_stream_twice:
  "filter (\<lambda>c. Callback.stream c = s) (filter (\<lambda>c. Callback.stream c \<noteq> s) cbs) = []"
  by (induction cbs) auto

text \<open>
  C2. For every stream \<open>s\<close> and every registry, \<open>resolveCallbacks\<close> and
  \<open>rejectCallbacks\<close> leave no entry of stream \<open>s\<close>; the trace grows by exactly one call
  of the handler of each matching entry, in the order of the registry, so the traversal
  over the array it shortens skips no entry and visits none twice; and running the same
  operation again changes neither the registry nor the trace.
\<close>

theorem C2_registry_cleared_once:
  "filter (\<lambda>c. Callback.stream c = s) (fst (resolveCallbacks s d cbs tr)) = []
   \<and> snd (resolveCallbacks s d cbs tr) =
       tr @ map (\<lambda>c. Invoked (resolve c) (Payload d)) (filter (\<lambda>c. Callback.stream c = s) cbs)
   \<and> resolveCallbacks s d (fst (resolveCallbacks s d cbs tr)) (snd (resolveCallbacks s d cbs tr)) =
       resolveCallbacks s d cbs tr
   \<and> filter (\<lambda>c. Callback.stream c = s) (fst (rejectCallbacks s e cbs tr)) = []
   \<and> snd (rejectCallbacks s e cbs tr) =
       tr @ map (\<lambda>c. Invoked (reject c) (Failure e)) (filter (\<lambda>c. Callback.stream c = s) cbs)
   \<and> rejectCallbacks s e (fst (rejectCallbacks s e cbs tr)) (snd (rejectCallbacks s e cbs tr)) =
       rejectCallbacks s e cbs tr"
  by (simp add: resolveCallbacks_eq rejectCallbacks_eq filter_stream_twice)

text \<open>
  C10. \<open>resolveCallbacks\<close> and \<open>rejectCallbacks\<close> for a stream \<open>s\<close> leave in the
  registry exactly the entries of the other streams, each as it was and in the original
  order.
\<close>

theorem C10_other_streams_kept:
  "fst (resolveCallbacks s d cbs tr) = filter (\<lambda>c. Callback.stream c \<noteq> s) cbs
   \<and> fst (rejectCallbacks s e cbs tr) = filter (\<lambda>c. Callback.stream c \<noteq> s) cbs"
  by (simp add: resolveCallbacks_eq rejectCallbacks_eq)

section \<open>Evaluating the example runs\<close>

lemmas unfold_run = run_def boot_def new_ChakraClient_def merge_opts_def DEFAULT_OPTS_def
  spread_def connect_def connect_failed_def say_def wsUrl_def hostname_def on_open_def
  emit_then_def emit_def on_close_def on_timeout_def splice1_def watchStream_def
  watchStream_rest_def on_registry_def rejectCallbacks_eq resolveCallbacks_eq on_message_def
  on_error_def no_options_def in_browser_def toString_def decimal.simps digit_def Let_def
  superseded_def call_def reply_def ACTION_CONNECT_def

lemma s1_pending_eval:
  "callbacks (client s1_pending) = [call ''s1'' 0]"
  "length (sockets s1_pending) = 1"
  "error_listeners s1_pending = 0"
  unfolding s1_pending_def by (simp_all add: unfold_run)

lemma s1_listened_eval:
  "callbacks (client s1_listened) = [call ''s1'' 0]"
  "length (sockets s1_listened) = 1"
  "error_listeners s1_listened = 1"
  unfolding s1_listened_def by (simp_all add: unfold_run)

section \<open>The message dispatcher\<close>

lemma emit_then_plain:
  "\<forall>e. n \<noteq> Error_ev e \<Longrightarrow> emit_then n rest w = rest (say [Emitted n] w)"
  by (cases n) (auto simp: emit_then_def emit_def)

lemma emit_then_error:
  "emit_then (Error_ev e) rest w =
     (if error_listeners w = 0 then say [Uncaught (Unhandled e)] w
      else rest (say [Emitted (Error_ev e)] w))"
  by (simp add: emit_then_def emit_def)

lemma on_registry_resolve:
  "on_registry (resolveCallbacks s d) w =
     w\<lparr>client := (client w)\<lparr>callbacks :=
           filter (\<lambda>c. Callback.stream c \<noteq> s) (callbacks (client w))\<rparr>,
       trace := trace w @ map (\<lambda>c. Invoked (resolve c) (Payload d))
                  (filter (\<lambda>c. Callback.stream c = s) (callbacks (client w)))\<rparr>"
  by (simp add: on_registry_def resolveCallbacks_eq)

lemma on_registry_reject:
  "on_registry (rejectCallbacks s e) w =
     w\<lparr>client := (client w)\<lparr>callbacks :=
           filter (\<lambda>c. Callback.stream c \<noteq> s) (callbacks (client w))\<rparr>,
       trace := trace w @ map (\<lambda>c. Invoked (reject c) (Failure e))
                  (filter (\<lambda>c. Callback.stream c = s) (callbacks (client w)))\<rparr>"
  by (simp add: on_registry_def rejectCallbacks_eq)

text \<open>
  C4. A decoded message with status 200 that arrives on a socket of the client: the
  pending calls of its stream are resolved with its payload, in the order of the
  registry, and leave the registry; the \<open>stream-data\<close> notification carrying the
  message is emitted first when the action is \<open>Connect\<close>, and nothing is emitted for
  any other action. Nothing else of the client or the runtime changes.
\<close>

theorem C4_success_dispatch:
  assumes "k < length (sockets w)" and "status m = 200"
  shows "step w (Socket_message k (Decoded m)) =
     w\<lparr>client := (client w)\<lparr>callbacks :=
           filter (\<lambda>c. Callback.stream c \<noteq> Message.stream m) (callbacks (client w))\<rparr>,
       trace := trace w
         @ (if Message.action m = ''Connect'' then [Emitted (Stream_data_ev m)] else [])
         @ map (\<lambda>c. Invoked (resolve c) (Payload (Message.data m)))
             (filter (\<lambda>c. Callback.stream c = Message.stream m) (callbacks (client w)))\<rparr>"
  using assms
  by (simp add: on_message_def ACTION_CONNECT_def emit_then_plain on_registry_resolve say_def)

theorem C4_witness:
  "step s1_pending (Socket_message 0 (Decoded (reply ''Connect'' 200 ''s1''))) =
     s1_pending\<lparr>client := (client s1_pending)\<lparr>callbacks := []\<rparr>,
       trace := trace s1_pending @
         [Emitted (Stream_data_ev (reply ''Connect'' 200 ''s1'')),
          Invoked (OnStream 0) (Payload answer)]\<rparr>
   \<and> step s1_pending (Socket_message 0 (Decoded (reply ''Created'' 200 ''s1''))) =
     s1_pending\<lparr>client := (client s1_pending)\<lparr>callbacks := []\<rparr>,
       trace := trace s1_pending @ [Invoked (OnStream 0) (Payload answer)]\<rparr>"
proof -
  have k: "0 < length (sockets s1_pending)"
    by (simp add: s1_pending_eval)
  have ok: "status (reply a 200 ''s1'') = 200" for a
    by (simp add: reply_def)
  show ?thesis
    using C4_success_dispatch[OF k ok, of "''Connect''"] C4_success_dispatch[OF k ok, of "''Created''"]
    by (simp add: s1_pending_eval reply_def call_def)
qed

text \<open>
  What the message listener does with a status other than 200 where the client has a
  listener for \<open>error\<close> (which, like every listener here, is taken to return without
  calling back into the client): the error made from the message has the decimal text of
  the status as its message and the message itself as \<open>msg\<close>; the \<open>error\<close>
  notification is emitted once with it, then the pending calls of the message's stream
  are rejected with it, in the order of the registry, and leave the registry. When the
  stream has no pending call, the notification is all that happens.
\<close>

lemma failure_dispatch_heard:
  assumes "k < length (sockets w)" and "status m \<noteq> 200" and "0 < error_listeners w"
  shows "step w (Socket_message k (Decoded m)) =
     w\<lparr>client := (client w)\<lparr>callbacks :=
           filter (\<lambda>c. Callback.stream c \<noteq> Message.stream m) (callbacks (client w))\<rparr>,
       trace := trace w
         @ [Emitted (Error_ev (Of_client \<lparr>message = toString (status m), msg = Some m\<rparr>))]
         @ map (\<lambda>c. Invoked (reject c) (Failure \<lparr>message = toString (status m), msg = Some m\<rparr>))
             (filter (\<lambda>c. Callback.stream c = Message.stream m) (callbacks (client w)))\<rparr>
     \<and> ((\<forall>c \<in> set (callbacks (client w)). Callback.stream c \<noteq> Message.stream m) \<longrightarrow>
         step w (Socket_message k (Decoded m)) =
           w\<lparr>trace := trace w
             @ [Emitted (Error_ev (Of_client \<lparr>message = toString (status m), msg = Some m\<rparr>))]\<rparr>)"
proof -
  have none: "filter (\<lambda>c. Callback.stream c = Message.stream m) cbs = []
              \<and> filter (\<lambda>c. Callback.stream c \<noteq> Message.stream m) cbs = cbs"
    if "\<forall>c \<in> set cbs. Callback.stream c \<noteq> Message.stream m" for cbs
    using that by (induction cbs) auto
  show ?thesis
    using assms none[of "callbacks (client w)"]
    by (auto simp: on_message_def emit_then_error on_registry_reject say_def Let_def)
qed

lemma failure_dispatch_heard_example:
  "step s1_listened (Socket_message 0 (Decoded (reply ''Connect'' 404 ''s1''))) =
     s1_listened\<lparr>client := (client s1_listened)\<lparr>callbacks := []\<rparr>,
       trace := trace s1_listened @
         [Emitted (Error_ev (Of_client
            \<lparr>message = ''404'', msg = Some (reply ''Connect'' 404 ''s1'')\<rparr>)),
          Invoked (Reject 0) (Failure
            \<lparr>message = ''404'', msg = Some (reply ''Connect'' 404 ''s1'')\<rparr>)]\<rparr>
   \<and> step s1_listened (Socket_message 0 (Decoded (reply ''Connect'' 404 ''s2''))) =
     s1_listened\<lparr>trace := trace s1_listened @
         [Emitted (Error_ev (Of_client
            \<lparr>message = ''404'', msg = Some (reply ''Connect'' 404 ''s2'')\<rparr>))]\<rparr>"
proof -
  have k: "0 < length (sockets s1_listened)"
    by (simp add: s1_listened_eval)
  have st: "status (reply ''Connect'' 404 s) \<noteq> 200" for s
    by (simp add: reply_def)
  have l: "0 < error_listeners s1_listened"
    by (simp add: s1_listened_eval)
  have t404: "toString 404 = ''404''"
    by (simp add: toString_def decimal.simps digit_def)
  have other: "\<forall>c \<in> set (callbacks (client s1_listened)).
                 Callback.stream c \<noteq> Message.stream (reply ''Connect'' 404 ''s2'')"
    by (simp add: s1_listened_eval reply_def call_def)
  show ?thesis
    using failure_dispatch_heard[OF k st l, of "''s1''"] failure_dispatch_heard[OF k st l, of "''s2''"] other
    by (simp add: s1_listened_eval reply_def call_def t404)
qed

text \<open>
  C3. The claim asks that every message with a status other than 200 rejects the pending
  calls of its stream. The code does not do that where the client has no listener for
  \<open>error\<close>: \<open>this.emit('error', error)\<close> stands before \<open>this.rejectCallbacks\<close>,
  \<open>emit\<close> throws the error, the listener ends there, and the pending call of the
  stream is neither rejected nor removed; no notification reaches anyone. In the same
  state a message with status 200 for the same stream does reach the registry and
  resolves the call.
\<close>

theorem C3_unheard_error_skips_rejection:
  "error_listeners s1_pending = 0
   \<and> callbacks (client s1_pending) = [call ''s1'' 0]
   \<and> callbacks (client (step s1_pending (Socket_message 0 (Decoded (reply ''Connect'' 404 ''s1'')))))
     = [call ''s1'' 0]
   \<and> trace (step s1_pending (Socket_message 0 (Decoded (reply ''Connect'' 404 ''s1''))))
     = trace s1_pending @
        [Uncaught (Unhandled (Of_client
           \<lparr>message = ''404'', msg = Some (reply ''Connect'' 404 ''s1'')\<rparr>))]
   \<and> callbacks (client (step s1_pending (Socket_message 0 (Decoded (reply ''Connect'' 200 ''s1'')))))
     = []
   \<and> trace (step s1_pending (Socket_message 0 (Decoded (reply ''Connect'' 200 ''s1''))))
     = trace s1_pending @
        [Emitted (Stream_data_ev (reply ''Connect'' 200 ''s1'')),
         Invoked (OnStream 0) (Payload answer)]"
proof -
  have t404: "toString 404 = ''404''"
    by (simp add: toString_def decimal.simps digit_def)
  have bad: "callbacks (client (step s1_pending (Socket_message 0 (Decoded (reply ''Connect'' 404 ''s1'')))))
       = [call ''s1'' 0]"
    "trace (step s1_pending (Socket_message 0 (Decoded (reply ''Connect'' 404 ''s1''))))
       = trace s1_pending @
          [Uncaught (Unhandled (Of_client
             \<lparr>message = ''404'', msg = Some (reply ''Connect'' 404 ''s1'')\<rparr>))]"
    by (simp_all add: s1_pending_eval on_message_def emit_then_error say_def reply_def t404)
  have good: "callbacks (client (step s1_pending (Socket_message 0 (Decoded (reply ''Connect'' 200 ''s1'')))))
       = []"
    "trace (step s1_pending (Socket_message 0 (Decoded (reply ''Connect'' 200 ''s1''))))
       = trace s1_pending @
          [Emitted (Stream_data_ev (reply ''Connect'' 200 ''s1'')),
           Invoked (OnStream 0) (Payload answer)]"
    by (simp_all add: s1_pending_eval on_message_def emit_then_plain on_registry_resolve say_def
          reply_def call_def ACTION_CONNECT_def)
  show ?thesis
    using bad good by (simp add: s1_pending_eval del: step.simps)
qed

section \<open>What no step changes\<close>

lemmas handlers = connect_def connect_failed_def say_def on_open_def emit_then_def emit_def
  on_close_def on_timeout_def watchStream_def watchStream_rest_def on_registry_def
  on_message_def on_error_def send_def createStream_def Let_def
  rejectCallbacks_eq resolveCallbacks_eq

lemma step_destroyed: "destroyed (client (step w e)) = destroyed (client w)"
  by (cases e)
     (auto simp: handlers split: option.splits awaiter.splits frame.splits notification.splits)

lemma step_opts: "opts (client (step w e)) = opts (client w)"
  by (cases e)
     (auto simp: handlers split: option.splits awaiter.splits frame.splits notification.splits)

lemma run_Nil: "run w [] = w"
  by (simp add: run_def)

lemma run_Cons: "run w (e # es) = run (step w e) es"
  by (simp add: run_def)

lemma run_snoc: "run w (es @ [e]) = step (run w es) e"
  by (simp add: run_def)

lemma run_destroyed: "destroyed (client (run w es)) = destroyed (client w)"
  by (induction es arbitrary: w) (simp_all add: run_Nil run_Cons step_destroyed del: step.simps)

lemma run_opts: "opts (client (run w es)) = opts (client w)"
  by (induction es arbitrary: w) (simp_all add: run_Nil run_Cons step_opts del: step.simps)

section \<open>The reconnect schedule\<close>

lemma timeouts_simps [simp]:
  "timeouts [] = []"
  "timeouts (tr @ tr') = timeouts tr @ timeouts tr'"
  "timeouts (Timeout_set d # tr) = d # timeouts tr"
  "timeouts (Emitted n # tr) = timeouts tr"
  "timeouts (Invoked f a # tr) = timeouts tr"
  "timeouts (Registered c # tr) = timeouts tr"
  "timeouts (Socket_created k u h # tr) = timeouts tr"
  "timeouts (Connect_fulfilled k # tr) = timeouts tr"
  "timeouts (Connect_rejected x # tr) = timeouts tr"
  "timeouts (Uncaught x # tr) = timeouts tr"
  "timeouts (Sent k m # tr) = timeouts tr"
  "timeouts (Http_post u h' s hs # tr) = timeouts tr"
  "timeouts (map (\<lambda>c. Invoked (g c) (b c)) cs) = []"
  by (simp_all add: timeouts_def)

lemma step_backoff:
  assumes "\<not> is_open e" "autoReconnect (opts (client w))" "\<not> destroyed (client w)"
  shows "timeouts (trace (step w e)) = timeouts (trace w) @
           (if closing w e
            then [(reconnectTries (client w) + 1) * reconnectInterval (opts (client w)) *
                    reconnectIntervalMultiplier (opts (client w))]
            else [])"
    and "reconnectTries (client (step w e)) = reconnectTries (client w) + (if closing w e then 1 else 0)"
  using assms
  by (cases e; auto simp: handlers split: option.splits awaiter.splits frame.splits notification.splits)+

lemma upt_shift: "map f [Suc 0..<Suc (Suc m)] = f (Suc 0) # map (\<lambda>j. f (Suc j)) [Suc 0..<Suc m]"
proof -
  have "[Suc 0..<Suc (Suc m)] = Suc 0 # map Suc [Suc 0..<Suc m]"
    by (simp only: map_Suc_upt) (simp add: upt_conv_Cons)
  then show ?thesis by (simp only: list.map map_map comp_def)
qed

lemma run_backoff:
  assumes "\<forall>e \<in> set es. \<not> is_open e" "autoReconnect (opts (client w))" "\<not> destroyed (client w)"
  shows "timeouts (trace (run w es)) = timeouts (trace w) @
           map (\<lambda>j. (reconnectTries (client w) + int j) * reconnectInterval (opts (client w)) *
                  reconnectIntervalMultiplier (opts (client w))) [1..<Suc (closings w es)]
       \<and> reconnectTries (client (run w es)) = reconnectTries (client w) + int (closings w es)"
  using assms
proof (induction es arbitrary: w)
  case Nil
  then show ?case by (simp add: run_def)
next
  case (Cons e es)
  let ?I = "reconnectInterval (opts (client w))"
  let ?M = "reconnectIntervalMultiplier (opts (client w))"
  let ?t = "reconnectTries (client w)"
  let ?m = "closings (step w e) es"
  have e: "\<not> is_open e" and es: "\<forall>e \<in> set es. \<not> is_open e"
    using Cons.prems(1) by simp_all
  have keep: "autoReconnect (opts (client (step w e)))" "\<not> destroyed (client (step w e))"
    "opts (client (step w e)) = opts (client w)"
    using Cons.prems(2,3) by (simp_all add: step_opts step_destroyed del: step.simps)
  have IH: "timeouts (trace (run (step w e) es)) = timeouts (trace (step w e)) @
           map (\<lambda>j. (reconnectTries (client (step w e)) + int j) * ?I * ?M) [1..<Suc ?m]"
      "reconnectTries (client (run (step w e) es)) = reconnectTries (client (step w e)) + int ?m"
    using Cons.IH[OF es keep(1,2)] by (simp_all only: keep(3))
  note st = step_backoff[OF e Cons.prems(2,3)]
  show ?case
  proof (cases "closing w e")
    case True
    have t': "reconnectTries (client (step w e)) = ?t + 1"
      using st(2) True by simp
    have "timeouts (trace (run (step w e) es)) =
            timeouts (trace w) @ ((?t + int (Suc 0)) * ?I * ?M) #
              map (\<lambda>j. (?t + int (Suc j)) * ?I * ?M) [Suc 0..<Suc ?m]"
      using IH(1) st(1) True by (simp add: t' add.assoc)
    also have "((?t + int (Suc 0)) * ?I * ?M) # map (\<lambda>j. (?t + int (Suc j)) * ?I * ?M) [Suc 0..<Suc ?m]
         = map (\<lambda>j. (?t + int j) * ?I * ?M) [Suc 0..<Suc (Suc ?m)]"
      by (rule upt_shift[symmetric])
    finally show ?thesis
      using IH(2) True by (simp add: run_Cons t')
  next
    case False
    show ?thesis
      using IH st False by (simp add: run_Cons)
  qed
qed

lemma open_resets:
  assumes "k < length (sockets w)" "open_listener (sockets w ! k)" "once_open (sockets w ! k) \<noteq> None"
  shows "reconnectTries (client (step w (Socket_open k))) = 0"
    and "connected (client (step w (Socket_open k)))"
    and "timeouts (trace (step w (Socket_open k))) = timeouts (trace w)"
  using assms
  by (auto simp: handlers split: option.splits awaiter.splits)

text \<open>
  C5. Take any state in which auto-reconnect is on and the client is not destroyed, a
  socket whose open event completes a pending \<open>connect()\<close>, and any events after it
  among which no socket opens. The open event resets the counter to 0. Each close event
  that reaches a socket of the client then schedules one timeout, and the \<open>j\<close>-th of them
  since the open event is scheduled with the delay \<open>j\<close> times the interval times the
  multiplier; the counter ends as the number of those close events. With the defaults
  the delays are 2000, 4000, 6000, and 2000 again after the next open event.
\<close>

theorem C5_backoff_schedule:
  assumes "k < length (sockets w)" and "open_listener (sockets w ! k)"
    and "once_open (sockets w ! k) \<noteq> None"
    and "autoReconnect (opts (client w))" and "\<not> destroyed (client w)"
    and "\<forall>e \<in> set es. \<not> is_open e"
  shows "reconnectTries (client (step w (Socket_open k))) = 0
     \<and> timeouts (trace (run (step w (Socket_open k)) es)) =
         timeouts (trace w) @
         map (\<lambda>j. int j * reconnectInterval (opts (client w)) *
                reconnectIntervalMultiplier (opts (client w)))
           [1..<Suc (closings (step w (Socket_open k)) es)]
     \<and> reconnectTries (client (run (step w (Socket_open k)) es)) =
         int (closings (step w (Socket_open k)) es)"
proof -
  let ?o = "step w (Socket_open k)"
  have keep: "autoReconnect (opts (client ?o))" "\<not> destroyed (client ?o)"
    "opts (client ?o) = opts (client w)"
    using assms(4,5) by (simp_all add: step_opts step_destroyed del: step.simps)
  have "timeouts (trace (run ?o es)) = timeouts (trace ?o) @
           map (\<lambda>j. (reconnectTries (client ?o) + int j) * reconnectInterval (opts (client w)) *
                  reconnectIntervalMultiplier (opts (client w))) [1..<Suc (closings ?o es)]"
     and "reconnectTries (client (run ?o es)) = reconnectTries (client ?o) + int (closings ?o es)"
    using run_backoff[OF assms(6) keep(1,2)] by (simp_all only: keep(3))
  then show ?thesis
    by (simp only: open_resets[OF assms(1-3)]) simp
qed


lemma dialling_eval:
  "length (sockets dialling) = 1"
  "open_listener (sockets dialling ! 0)"
  "once_open (sockets dialling ! 0) = Some Nobody"
  "autoReconnect (opts (client dialling))"
  "\<not> destroyed (client dialling)"
  "reconnectInterval (opts (client dialling)) = 2000"
  "reconnectIntervalMultiplier (opts (client dialling)) = 1"
  "timeouts (trace dialling) = []"
  "closings (step dialling (Socket_open 0)) three_closes = 3"
  unfolding dialling_def three_closes_def by (simp_all add: unfold_run)

lemma redialling_eval:
  "length (sockets redialling) = 4"
  "open_listener (sockets redialling ! 3)"
  "once_open (sockets redialling ! 3) = Some Nobody"
  "autoReconnect (opts (client redialling))"
  "\<not> destroyed (client redialling)"
  "reconnectInterval (opts (client redialling)) = 2000"
  "reconnectIntervalMultiplier (opts (client redialling)) = 1"
  "timeouts (trace redialling) = [2000, 4000, 6000]"
  "reconnectTries (client redialling) = 3"
  "closings (step redialling (Socket_open 3)) [Socket_close 3 1006] = 1"
  unfolding redialling_def three_closes_def by (simp_all add: unfold_run)

theorem C5_witness:
  "timeouts (trace (run (step dialling (Socket_open 0)) three_closes)) = [2000, 4000, 6000]
   \<and> reconnectTries (client (step redialling (Socket_open 3))) = 0
   \<and> timeouts (trace (run (step redialling (Socket_open 3)) [Socket_close 3 1006])) =
       [2000, 4000, 6000, 2000]"
proof -
  have no_open: "\<forall>e \<in> set three_closes. \<not> is_open e" "\<forall>e \<in> set [Socket_close 3 1006]. \<not> is_open e"
    by (simp_all add: three_closes_def)
  have k: "0 < length (sockets dialling)" "3 < length (sockets redialling)"
    by (simp_all add: dialling_eval redialling_eval)
  have p: "once_open (sockets dialling ! 0) \<noteq> None" "once_open (sockets redialling ! 3) \<noteq> None"
    by (simp_all add: dialling_eval redialling_eval)
  have up: "[1..<Suc 3] = [1, 2, 3]" "[1..<Suc 1] = [1]"
    by (simp_all add: upt_rec)
  note A = C5_backoff_schedule[OF k(1) dialling_eval(2) p(1) dialling_eval(4,5) no_open(1),
      unfolded dialling_eval(6-9) up]
  note B = C5_backoff_schedule[OF k(2) redialling_eval(2) p(2) redialling_eval(4,5) no_open(2),
      unfolded redialling_eval(6-10) up]
  show ?thesis
    using A B by (simp del: step.simps)
qed

section \<open>The destroyed flag\<close>

text \<open>
  C9. The class declares \<open>destroyed\<close> as false and reads it in the close listener and
  in the timeout's callback, but no method and no listener assigns it: in every run of
  every client, on every platform, it is false. There is no shutdown operation.
\<close>

theorem C9_destroyed_never_set:
  "\<not> destroyed (client (run (boot win acc opt) es))"
  by (simp add: run_destroyed) (simp add: boot_def new_ChakraClient_def)

section \<open>How many sockets\<close>

text \<open>
  C8, as the code has it. \<open>connect()\<close> does not look at the state of the connection:
  where \<open>window\<close> is declared and the \<open>WebSocket\<close> constructor takes the URL, every
  call makes one more socket, which becomes \<open>this.socket\<close>, and leaves the earlier ones
  as they are, so one more socket is live. \<open>watchStream\<close> calls \<open>connect()\<close> exactly
  when the \<open>connected\<close> flag is false.
\<close>

theorem C8_connect_always_opens:
  assumes "window w \<noteq> Window_undeclared" and "ws_accepts w (wsUrl (opts (client w)))"
  shows "sockets (step w Call_connect) =
           sockets w @ [\<lparr>open_listener = True, once_open = Some Nobody, closed = False\<rparr>]
       \<and> socket (client (step w Call_connect)) = Some (length (sockets w))
       \<and> live (step w Call_connect) = live w + 1
       \<and> sockets (step w (Call_watchStream name setup)) =
           (if connected (client w) then sockets w
            else sockets w @ [\<lparr>open_listener = True,
                   once_open = Some (WatchStream_rest name setup (calls w)), closed = False\<rparr>])"
  using assms by (simp add: handlers live_def split: option.splits)

theorem C8_witness:
  "live (step in_browser Call_connect) = 1
   \<and> live (step (step in_browser Call_connect) Call_connect) = 2
   \<and> socket (client (step (step in_browser Call_connect) Call_connect)) = Some 1"
proof -
  let ?w = "step in_browser Call_connect"
  have a: "window in_browser \<noteq> Window_undeclared" "ws_accepts in_browser (wsUrl (opts (client in_browser)))"
    "live in_browser = 0" "length (sockets in_browser) = 0"
    by (simp_all add: unfold_run live_def)
  have b: "window ?w \<noteq> Window_undeclared" "ws_accepts ?w (wsUrl (opts (client ?w)))"
    "length (sockets ?w) = 1"
    by (simp_all add: unfold_run)
  show ?thesis
    using C8_connect_always_opens[OF a(1,2)] C8_connect_always_opens[OF b(1,2)] a(3,4) b(3)
    by (simp del: step.simps)
qed

text \<open>
  C8 as stated fails: a second \<open>connect()\<close> while the first socket is still connecting,
  or after it has opened, leaves two live sockets.
\<close>

theorem C8_counterexample:
  "live (run in_browser [Call_connect, Call_connect]) = 2
   \<and> live (run in_browser [Call_connect, Socket_open 0, Call_connect]) = 2
   \<and> connected (client (run in_browser [Call_connect, Socket_open 0]))"
  by (simp add: unfold_run live_def)


section \<open>Supersession\<close>

lemma idle_eval:
  "connected (client idle)"
  "calls idle = 0"
  "callbacks (client idle) = []"
  "length (sockets idle) = 1"
  "error_listeners idle = 1"
  unfolding idle_def by (simp_all add: unfold_run)

text \<open>
  Where the order of the calls is kept. Two calls of \<open>watchStream\<close> for the same name
  in a row, both with their peer set up, made while the client is connected, or made
  while it is not connected and followed at once by the open events of the two sockets
  the calls construct, in the order of the calls: the second call rejects the pending
  calls of the name when it comes to register, so the first call's \<open>reject\<close> is called
  with the supersession error before the second call is registered, and the registry then
  holds the second call as the only one of that name. A message for the name that arrives
  next goes to the second call alone.
\<close>

lemma superseded_in_call_order:
  assumes "connected (client w) \<or> platform_ok w"
  shows "(let n = calls w; k = length (sockets w);
              url = wsUrl (opts (client w));
              headers = (if window w = Window_object then None
                         else Some (''Bearer '' @ opts.token (opts (client w))));
              opens = (if connected (client w) then [] else [Socket_open k, Socket_open (k + 1)]);
              w2 = run w ([Call_watchStream name None, Call_watchStream name None] @ opens)
          in trace w2 =
               trace w
               @ (if connected (client w) then []
                  else [Socket_created k url headers, Socket_created (k + 1) url headers,
                        Emitted Connect_ev, Connect_fulfilled k])
               @ map (\<lambda>c. Invoked (reject c) (Failure superseded))
                   (filter (\<lambda>c. Callback.stream c = name) (callbacks (client w)))
               @ [Registered (call name n)]
               @ (if connected (client w) then []
                  else [Emitted Connect_ev, Connect_fulfilled (k + 1)])
               @ [Invoked (Reject n) (Failure superseded), Registered (call name (n + 1))]
           \<and> callbacks (client w2) =
               filter (\<lambda>c. Callback.stream c \<noteq> name) (callbacks (client w)) @ [call name (n + 1)]
           \<and> (\<forall>j m. j < length (sockets w2) \<and> Message.stream m = name \<and> status m = 200 \<longrightarrow>
                 trace (step w2 (Socket_message j (Decoded m))) =
                   trace w2
                   @ (if Message.action m = ''Connect'' then [Emitted (Stream_data_ev m)] else [])
                   @ [Invoked (OnStream (n + 1)) (Payload (Message.data m))])
           \<and> (\<forall>j m. j < length (sockets w2) \<and> Message.stream m = name \<and> status m \<noteq> 200
                      \<and> 0 < error_listeners w2 \<longrightarrow>
                 trace (step w2 (Socket_message j (Decoded m))) =
                   trace w2
                   @ [Emitted (Error_ev (Of_client \<lparr>message = toString (status m), msg = Some m\<rparr>)),
                      Invoked (Reject (n + 1))
                        (Failure \<lparr>message = toString (status m), msg = Some m\<rparr>)]))"
proof (cases "connected (client w)")
  case True
  then show ?thesis
    by (simp add: run_def handlers call_def filter_stream_twice ACTION_CONNECT_def)
next
  case False
  then have ok: "window w \<noteq> Window_undeclared" "ws_accepts w (wsUrl (opts (client w)))"
    using assms by (simp_all add: platform_ok_def)
  define n where "n = calls w"
  define k where "k = length (sockets w)"
  define url where "url = wsUrl (opts (client w))"
  define hdr where "hdr = (if window w = Window_object then None
                           else Some (''Bearer '' @ opts.token (opts (client w))))"
  define cbs where "cbs = callbacks (client w)"
  define s0 where "s0 = \<lparr>open_listener = True, once_open = Some (WatchStream_rest name None n),
                          closed = False\<rparr>"
  define s1 where "s1 = \<lparr>open_listener = True, once_open = Some (WatchStream_rest name None (n + 1)),
                          closed = False\<rparr>"
  define wa where "wa = step w (Call_watchStream name None)"
  define wb where "wb = step wa (Call_watchStream name None)"
  define wc where "wc = step wb (Socket_open k)"
  define wd where "wd = step wc (Socket_open (k + 1))"
  have a: "sockets wa = sockets w @ [s0]" "trace wa = trace w @ [Socket_created k url hdr]"
    "callbacks (client wa) = cbs" "\<not> connected (client wa)" "calls wa = n + 1"
    "window wa = window w" "ws_accepts wa = ws_accepts w" "opts (client wa) = opts (client w)"
    "error_listeners wa = error_listeners w"
    using False ok
    by (simp_all add: wa_def handlers n_def k_def url_def hdr_def cbs_def s0_def)
  have b: "sockets wb = sockets w @ [s0, s1]"
    "trace wb = trace w @ [Socket_created k url hdr, Socket_created (k + 1) url hdr]"
    "callbacks (client wb) = cbs" "calls wb = n + 2" "socket (client wb) = Some (k + 1)"
    "error_listeners wb = error_listeners w"
    using a ok
    by (simp_all add: wb_def handlers k_def url_def hdr_def s1_def)
  have bk: "k < length (sockets wb)" "sockets wb ! k = s0"
    by (simp_all add: b k_def nth_append)
  have c: "sockets wc = sockets w @ [s0\<lparr>once_open := None\<rparr>, s1]"
    "trace wc = trace w @ [Socket_created k url hdr, Socket_created (k + 1) url hdr,
        Emitted Connect_ev, Connect_fulfilled k]
        @ map (\<lambda>c. Invoked (reject c) (Failure superseded)) (filter (\<lambda>c. Callback.stream c = name) cbs)
        @ [Registered (call name n)]"
    "callbacks (client wc) = filter (\<lambda>c. Callback.stream c \<noteq> name) cbs @ [call name n]"
    "socket (client wc) = Some (k + 1)" "error_listeners wc = error_listeners w"
    using bk b
    by (simp_all add: wc_def handlers s0_def call_def k_def list_update_append)
  have ck: "k + 1 < length (sockets wc)" "sockets wc ! (k + 1) = s1"
    by (simp_all add: c k_def nth_append)
  have d: "length (sockets wd) = k + 2"
    "trace wd = trace wc @ [Emitted Connect_ev, Connect_fulfilled (k + 1),
        Invoked (Reject n) (Failure superseded), Registered (call name (n + 1))]"
    "callbacks (client wd) = filter (\<lambda>c. Callback.stream c \<noteq> name) cbs @ [call name (n + 1)]"
    "error_listeners wd = error_listeners w"
    using ck c
    by (simp_all add: wd_def handlers s1_def call_def k_def filter_stream_twice)
  have run_eq: "run w ([Call_watchStream name None, Call_watchStream name None]
                  @ [Socket_open k, Socket_open (k + 1)]) = wd"
    by (simp add: run_def wd_def wc_def wb_def wa_def del: step.simps)
  have msg_ok: "trace (step wd (Socket_message j (Decoded m))) =
                   trace wd
                   @ (if Message.action m = ''Connect'' then [Emitted (Stream_data_ev m)] else [])
                   @ [Invoked (OnStream (n + 1)) (Payload (Message.data m))]"
    if "j < length (sockets wd)" "Message.stream m = name" "status m = 200" for j m
    using that d(3)
    by (simp add: handlers call_def filter_stream_twice ACTION_CONNECT_def)
  have msg_bad: "trace (step wd (Socket_message j (Decoded m))) =
                   trace wd
                   @ [Emitted (Error_ev (Of_client \<lparr>message = toString (status m), msg = Some m\<rparr>)),
                      Invoked (Reject (n + 1))
                        (Failure \<lparr>message = toString (status m), msg = Some m\<rparr>)]"
    if "j < length (sockets wd)" "Message.stream m = name" "status m \<noteq> 200"
       "0 < error_listeners wd" for j m
    using that d(3)
    by (simp add: handlers call_def filter_stream_twice)
  show ?thesis
    unfolding Let_def
    using False run_eq[unfolded k_def] d(2,3) c(2) msg_ok msg_bad
    by (simp add: n_def k_def url_def hdr_def cbs_def del: step.simps)
qed

lemma superseded_in_call_order_example:
  "trace (run idle [Call_watchStream ''A'' None, Call_watchStream ''A'' None]) =
     trace idle @ [Registered (call ''A'' 0), Invoked (Reject 0) (Failure superseded),
                   Registered (call ''A'' 1)]
   \<and> trace (step (run idle [Call_watchStream ''A'' None, Call_watchStream ''A'' None])
                (Socket_message 0 (Decoded (reply ''Connect'' 200 ''A'')))) =
     trace idle @ [Registered (call ''A'' 0), Invoked (Reject 0) (Failure superseded),
                   Registered (call ''A'' 1),
                   Emitted (Stream_data_ev (reply ''Connect'' 200 ''A'')),
                   Invoked (OnStream 1) (Payload answer)]
   \<and> callbacks (client (run in_browser
        [Call_watchStream ''A'' None, Call_watchStream ''A'' None, Socket_open 0, Socket_open 1])) =
     [call ''A'' 1]"
proof -
  let ?w2 = "run idle [Call_watchStream ''A'' None, Call_watchStream ''A'' None]"
  have c: "connected (client idle) \<or> platform_ok idle"
    by (simp add: idle_eval)
  note T = superseded_in_call_order[OF c, of "''A''", unfolded Let_def]
  have tr: "trace ?w2 = trace idle @ [Registered (call ''A'' 0),
              Invoked (Reject 0) (Failure superseded), Registered (call ''A'' 1)]"
    using T[THEN conjunct1] idle_eval by (simp del: step.simps)
  have k: "0 < length (sockets ?w2)"
    by (simp add: run_def handlers idle_eval)
  have m: "Message.stream (reply ''Connect'' 200 ''A'') = ''A''" "status (reply ''Connect'' 200 ''A'') = 200"
    "Message.action (reply ''Connect'' 200 ''A'') = ''Connect''" "Message.data (reply ''Connect'' 200 ''A'') = answer"
    by (simp_all add: reply_def)
  have "trace (step ?w2 (Socket_message 0 (Decoded (reply ''Connect'' 200 ''A'')))) =
          trace ?w2 @ [Emitted (Stream_data_ev (reply ''Connect'' 200 ''A''))] @
            [Invoked (OnStream (0 + 1)) (Payload answer)]"
    using T[THEN conjunct2, THEN conjunct2, THEN conjunct1, rule_format,
            of 0 "reply ''Connect'' 200 ''A''"] k m idle_eval
    by (simp del: step.simps)
  then have first: "trace (step ?w2 (Socket_message 0 (Decoded (reply ''Connect'' 200 ''A'')))) =
     trace idle @ [Registered (call ''A'' 0), Invoked (Reject 0) (Failure superseded),
                   Registered (call ''A'' 1),
                   Emitted (Stream_data_ev (reply ''Connect'' 200 ''A'')),
                   Invoked (OnStream 1) (Payload answer)]"
    using tr by (simp del: step.simps)
  have b: "connected (client in_browser) \<or> platform_ok in_browser"
    "\<not> connected (client in_browser)" "calls in_browser = 0" "length (sockets in_browser) = 0"
    "callbacks (client in_browser) = []"
    by (simp_all add: platform_ok_def unfold_run)
  note U = superseded_in_call_order[OF b(1), of "''A''", unfolded Let_def]
  have "callbacks (client (run in_browser
        [Call_watchStream ''A'' None, Call_watchStream ''A'' None, Socket_open 0, Socket_open 1])) =
     [call ''A'' 1]"
    using U[THEN conjunct2, THEN conjunct1] b(2-5) by (simp del: step.simps)
  then show ?thesis
    using tr first by (simp del: step.simps)
qed

text \<open>
  C6. The claim asks that of two calls of \<open>watchStream\<close> for one name the first is
  rejected with the supersession error before the second is registered, and that the
  second alone observes the response. The code does not do that while the client is not
  connected: each call awaits a \<open>connect()\<close> of its own and comes to reject and
  register only when its own socket opens. In the first run below the second call's
  socket opens first: the second, newer call is registered first, is then rejected by
  the first call with the error that says a new request was made, and the first call
  receives the response. In the second run the response arrives between the two open
  events: the first call receives it and is never superseded.
\<close>

theorem C6_newer_call_cancelled:
  "\<not> connected (client in_browser)
   \<and> trace (run in_browser
      [Call_watchStream ''A'' None, Call_watchStream ''A'' None, Socket_open 1, Socket_open 0,
       Socket_message 0 (Decoded (reply ''Connect'' 200 ''A''))]) =
     [Socket_created 0 ''ws://127.0.0.1:8080/'' None,
      Socket_created 1 ''ws://127.0.0.1:8080/'' None,
      Emitted Connect_ev, Connect_fulfilled 1, Registered (call ''A'' 1),
      Emitted Connect_ev, Connect_fulfilled 0,
      Invoked (Reject 1) (Failure superseded), Registered (call ''A'' 0),
      Emitted (Stream_data_ev (reply ''Connect'' 200 ''A'')),
      Invoked (OnStream 0) (Payload answer)]
   \<and> trace (run in_browser
      [Call_watchStream ''A'' None, Call_watchStream ''A'' None, Socket_open 0,
       Socket_message 0 (Decoded (reply ''Connect'' 200 ''A'')), Socket_open 1]) =
     [Socket_created 0 ''ws://127.0.0.1:8080/'' None,
      Socket_created 1 ''ws://127.0.0.1:8080/'' None,
      Emitted Connect_ev, Connect_fulfilled 0, Registered (call ''A'' 0),
      Emitted (Stream_data_ev (reply ''Connect'' 200 ''A'')),
      Invoked (OnStream 0) (Payload answer),
      Emitted Connect_ev, Connect_fulfilled 1, Registered (call ''A'' 1)]"
  by (simp add: unfold_run)

section \<open>The promise of \<open>connect()\<close>\<close>

lemma step_platform: "platform_ok (step w e) = platform_ok w"
  by (cases e)
     (auto simp: platform_ok_def handlers split: option.splits awaiter.splits frame.splits notification.splits)

lemma count_map_invoked [simp]:
  "count_list (map (\<lambda>c. Invoked (g c) (b c)) cs) (Connect_fulfilled k) = 0"
  by (induction cs) auto


lemma conn_inv_say:
  "conn_inv w \<Longrightarrow> \<forall>k. Connect_fulfilled k \<notin> set es \<Longrightarrow> \<forall>x. Connect_rejected x \<notin> set es \<Longrightarrow>
   conn_inv (say es w)"
  by (auto simp: conn_inv_def say_def platform_ok_def count_list_0_iff)










section \<open>Every pending call fires at most once\<close>

lemma counts_append [simp]:
  "fired n (tr @ tr') = fired n tr + fired n tr'"
  "registered n (tr @ tr') = registered n tr + registered n tr'"
  "caught n (tr @ tr') = caught n tr + caught n tr'"
  "pending n (cbs @ cbs') = pending n cbs + pending n cbs'"
  by (simp_all add: fired_def registered_def caught_def pending_def)

lemma counts_Nil [simp]:
  "fired n [] = 0" "registered n [] = 0" "caught n [] = 0" "pending n [] = 0"
  by (simp_all add: fired_def registered_def caught_def pending_def)

lemma counts_Cons [simp]:
  "fired n (e # tr) = (if fires n e then 1 else 0) + fired n tr"
  "registered n (e # tr) = (if registers n e then 1 else 0) + registered n tr"
  "caught n (e # tr) = (if catches n e then 1 else 0) + caught n tr"
  "pending n (c # cbs) = (if resolve c = OnStream n then 1 else 0) + pending n cbs"
  by (simp_all add: fired_def registered_def caught_def pending_def)





lemma awaited_rest [simp]: "awaited n (watchStream_rest name setup m w) = awaited n w"
  by (auto simp: awaited_def handlers split: option.splits)




lemma awaits_flag [simp]:
  "awaits n (s\<lparr>open_listener := b\<rparr>) = awaits n s"
  "awaits n (s\<lparr>closed := b\<rparr>) = awaits n s"
  "awaits n (s\<lparr>once_open := None\<rparr>) = False"
  by simp_all












end
